theory Spec2Isabelle
  imports Main "HOL-Library.AList"
begin

section \<open>Customer list view (ViewCustomers)\<close>

text \<open>
  A customer record as the component's \<^verbatim>\<open>useState\<close> initialiser writes it. The field
  \<^verbatim>\<open>id\<close> is called \<open>id'\<close> here because \<open>id\<close> is the identity function of HOL. The ids of
  the source are the integer literals 1 and 2; they are modelled as integers.
\<close>

record customer =
  id' :: int
  name :: string
  DOB :: string
  phoneNumber :: string
  password :: string
  role :: string

definition initialCustomers :: "customer list" where
  "initialCustomers =
     [\<lparr>id' = 1, name = ''John Doe'', DOB = ''1990-05-15'', phoneNumber = ''1234567890'',
        password = ''pass123'', role = ''Customer''\<rparr>,
      \<lparr>id' = 2, name = ''Jane Smith'', DOB = ''1995-08-20'', phoneNumber = ''9876543210'',
        password = ''secure456'', role = ''Admin''\<rparr>]"

text \<open>
  \<^verbatim>\<open>handleDelete(id)\<close>: the answer of \<^verbatim>\<open>window.confirm\<close> is the first argument, the
  current value of the \<^verbatim>\<open>customers\<close> state the last one; the result is the state after
  the handler (the argument of \<^verbatim>\<open>setCustomers\<close>, or the old state when it is not called).
\<close>

definition handleDelete :: "bool \<Rightarrow> int \<Rightarrow> customer list \<Rightarrow> customer list" where
  "handleDelete confirmed i customers =
     (if confirmed then filter (\<lambda>customer. id' customer \<noteq> i) customers else customers)"

text \<open>
  \<^verbatim>\<open>handleEdit(id)\<close>: \<^verbatim>\<open>prompt\<close> returns the typed string, or \<^verbatim>\<open>null\<close> when the dialog is
  cancelled (\<open>None\<close>). \<^verbatim>\<open>if (newName)\<close> is JavaScript truthiness: \<^verbatim>\<open>null\<close> and the empty
  string are falsy, every other string is truthy.
\<close>

fun truthy :: "string option \<Rightarrow> bool" where
  "truthy None = False"
| "truthy (Some s) = (s \<noteq> [])"

definition handleEdit :: "string option \<Rightarrow> int \<Rightarrow> customer list \<Rightarrow> customer list" where
  "handleEdit newName i customers =
     (if truthy newName
      then map (\<lambda>customer. if id' customer = i then customer\<lparr>name := the newName\<rparr> else customer)
             customers
      else customers)"

text \<open>
  The table body: one data row per customer (keyed by the id, five text cells, and the
  Edit and Delete buttons, both bound to the row's id), followed by the placeholder row
  when \<^verbatim>\<open>customers.length === 0\<close>.
\<close>

datatype row =
  CustomerRow (key: int) (cells: "string list") (editTarget: int) (deleteTarget: int)
| PlaceholderRow (colSpan: nat) (content: string)

definition thead :: "string list" where
  "thead = [''Name'', ''DOB'', ''Phone Number'', ''Password'', ''Role'', ''Actions'']"

definition customerRow :: "customer \<Rightarrow> row" where
  "customerRow customer =
     CustomerRow (id' customer)
       [name customer, DOB customer, phoneNumber customer, password customer, role customer]
       (id' customer) (id' customer)"

definition tbody :: "customer list \<Rightarrow> row list" where
  "tbody customers =
     map customerRow customers @
     (if length customers = 0 then [PlaceholderRow 6 ''No customers found''] else [])"

fun isCustomerRow :: "row \<Rightarrow> bool" where
  "isCustomerRow (CustomerRow _ _ _ _) = True"
| "isCustomerRow (PlaceholderRow _ _) = False"

fun isPlaceholderRow :: "row \<Rightarrow> bool" where
  "isPlaceholderRow (CustomerRow _ _ _ _) = False"
| "isPlaceholderRow (PlaceholderRow _ _) = True"

section \<open>Create-user form (CreateUser)\<close>

text \<open>
  The form state is a JavaScript object used as a flat mapping from field name to string.
  It is an association list in the object's own key order: \<^verbatim>\<open>{ ...formData, [k]: v }\<close>
  replaces the value of an existing key in place and appends a new key at the end, which is
  what \<^const>\<open>AList.update\<close> does.
\<close>

type_synonym formData = "(string \<times> string) list"

definition initialFormData :: formData where
  "initialFormData =
     [(''name'', ''''), (''DOB'', ''''), (''phoneNumber'', ''''), (''password'', ''''),
      (''role'', '''')]"

definition handleChange :: "string \<Rightarrow> string \<Rightarrow> formData \<Rightarrow> formData" where
  "handleChange target_name target_value formData =
     AList.update target_name target_value formData"

text \<open>The five \<^verbatim>\<open><input>\<close> elements of the form, in document order.\<close>

record input =
  input_type :: string
  input_name :: string
  placeholder :: string
  required :: bool

definition inputs :: "input list" where
  "inputs =
     [\<lparr>input_type = ''text'', input_name = ''name'', placeholder = ''Name'', required = True\<rparr>,
      \<lparr>input_type = ''date'', input_name = ''DOB'', placeholder = ''Date of Birth'',
        required = False\<rparr>,
      \<lparr>input_type = ''tel'', input_name = ''phoneNumber'', placeholder = ''Phone Number'',
        required = True\<rparr>,
      \<lparr>input_type = ''password'', input_name = ''password'', placeholder = ''Password'',
        required = True\<rparr>,
      \<lparr>input_type = ''text'', input_name = ''role'', placeholder = ''Role'', required = False\<rparr>]"

text \<open>
  The request that \<^verbatim>\<open>axios.post(url, data)\<close> sends, and what the awaited promise can do:
  resolve with a response (of which the handler reads \<^verbatim>\<open>status\<close> only) or reject with an
  error. Of the error the handler reads \<^verbatim>\<open>err.response?.data?.message\<close>; each link of
  that chain may be missing. The message is modelled as an optional string.
\<close>

datatype http_method = POST

record request =
  req_method :: http_method
  req_url :: string
  req_body :: formData

record error_data =
  message :: "string option"

record error_response =
  status :: int
  data :: "error_data option"

record axios_error =
  response :: "error_response option"

datatype outcome = Resolved int | Rejected axios_error

definition axios_post :: "string \<Rightarrow> formData \<Rightarrow> request" where
  "axios_post u d = \<lparr>req_method = POST, req_url = u, req_body = d\<rparr>"

text \<open>\<^verbatim>\<open>err.response?.data?.message\<close>: undefined as soon as one link is missing.\<close>

definition error_message :: "axios_error \<Rightarrow> string option" where
  "error_message err =
     (case response err of
        None \<Rightarrow> None
      | Some r \<Rightarrow> (case data r of None \<Rightarrow> None | Some d \<Rightarrow> message d))"

text \<open>\<^verbatim>\<open>v || fallback\<close> on an optional string: the fallback when \<open>v\<close> is falsy.\<close>

definition or_else :: "string option \<Rightarrow> string \<Rightarrow> string" where
  "or_else v fallback = (if truthy v then the v else fallback)"

text \<open>
  \<^verbatim>\<open>handleSubmit\<close> is an async function with one \<^verbatim>\<open>await\<close>. Up to the await it issues the
  request (\<open>handleSubmit_request\<close>); once the promise is settled it runs the rest of the
  \<^verbatim>\<open>try\<close>/\<^verbatim>\<open>catch\<close> (\<open>handleSubmit_settle\<close>), which yields the next form state, the alerts
  shown and what \<^verbatim>\<open>console.error\<close> logged.
\<close>

definition handleSubmit_request :: "formData \<Rightarrow> request" where
  "handleSubmit_request formData = axios_post ''http://localhost:5000/api/auth/create'' formData"

record settled =
  nextFormData :: formData
  alerted :: "string list"
  logged :: "axios_error list"

fun handleSubmit_settle :: "outcome \<Rightarrow> formData \<Rightarrow> settled" where
  "handleSubmit_settle (Resolved res_status) formData =
     (if res_status = 201 \<or> res_status = 200
      then \<lparr>nextFormData =
               [(''name'', ''''), (''DOB'', ''''), (''phoneNumber'', ''''), (''password'', ''''),
                (''role'', '''')],
             alerted = [''User created successfully!''], logged = []\<rparr>
      else \<lparr>nextFormData = formData, alerted = [''Error creating user.''], logged = []\<rparr>)"
| "handleSubmit_settle (Rejected err) formData =
     \<lparr>nextFormData = formData,
      alerted = [or_else (error_message err) ''Something went wrong.''],
      logged = [err]\<rparr>"

text \<open>One whole run of the handler: the requests it issued and the effects once settled.\<close>

definition handleSubmit :: "formData \<Rightarrow> outcome \<Rightarrow> request list \<times> settled" where
  "handleSubmit formData out =
     ([handleSubmit_request formData], handleSubmit_settle out formData)"

subsection \<open>The component as a transition system\<close>

text \<open>
  The state of the mounted component: the form state, the requests in flight, and the
  alerts and console entries produced so far. The events are a change of one of the five
  inputs, a submit event of the form, and the settling of a request in flight. The browser
  fires the submit event only when every \<^verbatim>\<open>required\<close> input has a non-empty value. The
  handler itself has no guard: it keeps no in-flight flag and the button is never disabled.
\<close>

record createUser =
  form :: formData
  pending :: "request list"
  alerts :: "string list"
  console :: "axios_error list"

definition initialState :: createUser where
  "initialState = \<lparr>form = initialFormData, pending = [], alerts = [], console = []\<rparr>"

datatype event = Change string string | Submit | Settle nat outcome

definition field_value :: "formData \<Rightarrow> string \<Rightarrow> string" where
  "field_value fd k = (case map_of fd k of None \<Rightarrow> [] | Some v \<Rightarrow> v)"

definition required_filled :: "formData \<Rightarrow> bool" where
  "required_filled fd =
     list_all (\<lambda>i. field_value fd (input_name i) \<noteq> []) (filter required inputs)"

fun step :: "event \<Rightarrow> createUser \<Rightarrow> createUser option" where
  "step (Change n v) s =
     (if n \<in> set (map input_name inputs)
      then Some (s\<lparr>form := handleChange n v (form s)\<rparr>)
      else None)"
| "step Submit s =
     (if required_filled (form s)
      then Some (s\<lparr>pending := pending s @ [handleSubmit_request (form s)]\<rparr>)
      else None)"
| "step (Settle k out) s =
     (if k < length (pending s)
      then Some \<lparr>form = nextFormData (handleSubmit_settle out (form s)),
                 pending = take k (pending s) @ drop (Suc k) (pending s),
                 alerts = alerts s @ alerted (handleSubmit_settle out (form s)),
                 console = console s @ logged (handleSubmit_settle out (form s))\<rparr>
      else None)"

fun run :: "event list \<Rightarrow> createUser \<Rightarrow> createUser option" where
  "run [] s = Some s"
| "run (e # es) s = (case step e s of None \<Rightarrow> None | Some s' \<Rightarrow> run es s')"

inductive reachable :: "createUser \<Rightarrow> bool" where
  reachable_init: "reachable initialState"
| reachable_step: "reachable s \<Longrightarrow> step e s = Some s' \<Longrightarrow> reachable s'"

fun isSubmit :: "event \<Rightarrow> bool" where
  "isSubmit Submit = True"
| "isSubmit _ = False"

fun isSettle :: "event \<Rightarrow> bool" where
  "isSettle (Settle _ _) = True"
| "isSettle _ = False"

text \<open>
  The events that may write the form state: every change event, and the settling of a
  request with status 201 or 200 (the one branch that calls \<^verbatim>\<open>setFormData\<close>).
\<close>

fun writesForm :: "event \<Rightarrow> bool" where
  "writesForm (Change _ _) = True"
| "writesForm Submit = False"
| "writesForm (Settle _ (Resolved res_status)) = (res_status = 201 \<or> res_status = 200)"
| "writesForm (Settle _ (Rejected _)) = False"

section \<open>Properties\<close>

subsection \<open>Helper lemmas on the list operations\<close>

lemma filter_drops_unique_position:
  assumes "distinct (map f xs)" and "i < length xs" and "f (xs ! i) = t"
  shows "filter (\<lambda>x. f x \<noteq> t) xs = take i xs @ drop (Suc i) xs"
  using assms
proof (induction xs arbitrary: i)
  case Nil
  then show ?case by simp
next
  case (Cons x xs)
  show ?case
  proof (cases i)
    case 0
    with Cons.prems have hd: "f x = t" and fresh: "t \<notin> f ` set xs"
      by auto
    from fresh have "filter (\<lambda>y. f y \<noteq> t) xs = xs"
      by (auto simp: filter_id_conv)
    with hd 0 show ?thesis by simp
  next
    case (Suc j)
    with Cons.prems have j: "j < length xs" and at: "f (xs ! j) = t"
      and d: "distinct (map f xs)" and xnot: "f x \<notin> f ` set xs"
      by auto
    from j at have "t \<in> f ` set xs"
      by (metis imageI nth_mem)
    with xnot have "f x \<noteq> t" by auto
    with Cons.IH [OF d j at] Suc show ?thesis by simp
  qed
qed

lemma filter_keeps_when_absent:
  "t \<notin> f ` set xs \<Longrightarrow> filter (\<lambda>x. f x \<noteq> t) xs = xs"
  by (auto simp: filter_id_conv)

lemma map_ids_edit:
  "map id' (map (\<lambda>customer. if id' customer = i then customer\<lparr>name := n\<rparr> else customer) cs)
     = map id' cs"
  by (induction cs) auto

subsection \<open>Helper lemmas on the form\<close>

lemma handleChange_keys:
  "n \<in> set (map fst fd) \<Longrightarrow> map fst (handleChange n v fd) = map fst fd"
  by (simp add: handleChange_def update_keys)

lemma settle_keys:
  "map fst fd = map input_name inputs
   \<Longrightarrow> map fst (nextFormData (handleSubmit_settle out fd)) = map input_name inputs"
  by (cases out) (simp_all add: inputs_def)

lemma reachable_keys:
  "reachable s \<Longrightarrow> map fst (form s) = map input_name inputs"
proof (induction rule: reachable.induct)
  case reachable_init
  show ?case by (simp add: initialState_def initialFormData_def inputs_def)
next
  case (reachable_step s e s')
  show ?case
  proof (cases e)
    case (Change n v)
    with reachable_step.hyps(2) have n: "n \<in> set (map input_name inputs)"
      and s': "s' = s\<lparr>form := handleChange n v (form s)\<rparr>"
      by (auto split: if_splits)
    from n reachable_step.IH have "n \<in> set (map fst (form s))" by simp
    with s' reachable_step.IH show ?thesis
      by (simp add: handleChange_keys)
  next
    case Submit
    with reachable_step.hyps(2) reachable_step.IH show ?thesis
      by (auto split: if_splits)
  next
    case (Settle k out)
    with reachable_step.hyps(2) have "form s' = nextFormData (handleSubmit_settle out (form s))"
      by (auto split: if_splits)
    with reachable_step.IH show ?thesis
      by (simp add: settle_keys)
  qed
qed

lemma run_reachable:
  "reachable s \<Longrightarrow> run es s = Some s' \<Longrightarrow> reachable s'"
proof (induction es arbitrary: s)
  case Nil
  then show ?case by simp
next
  case (Cons e es)
  then show ?case
    by (auto split: option.splits intro: reachable_step)
qed

lemma run_filled:
  "run [Change ''name'' ''Ann'', Change ''phoneNumber'' ''0123'', Change ''password'' ''pw'']
       initialState
     = Some \<lparr>form = [(''name'', ''Ann''), (''DOB'', ''''), (''phoneNumber'', ''0123''),
                      (''password'', ''pw''), (''role'', '''')],
             pending = [], alerts = [], console = []\<rparr>"
  by (simp add: initialState_def initialFormData_def inputs_def handleChange_def)

lemma step_pending_count:
  assumes "step e s = Some s'"
  shows "length (pending s') + (if isSettle e then 1 else 0)
           = length (pending s) + (if isSubmit e then 1 else 0)"
proof (cases e)
  case (Change n v)
  with assms show ?thesis by (auto split: if_splits)
next
  case Submit
  with assms show ?thesis by (auto split: if_splits)
next
  case (Settle k out)
  with assms have k: "k < length (pending s)"
    and p: "pending s' = take k (pending s) @ drop (Suc k) (pending s)"
    by (auto split: if_splits)
  from k p have "length (pending s') + 1 = length (pending s)"
    by simp
  with Settle show ?thesis by simp
qed

lemma step_keeps_form:
  assumes "step e s = Some s'" and "\<not> writesForm e"
  shows "form s' = form s"
proof (cases e)
  case (Change n v)
  with assms show ?thesis by simp
next
  case Submit
  with assms show ?thesis by (auto split: if_splits)
next
  case (Settle k out)
  with assms show ?thesis
    by (cases out) (auto split: if_splits)
qed

lemma run_keeps_form:
  "run es s = Some s' \<Longrightarrow> list_all (\<lambda>e. \<not> writesForm e) es \<Longrightarrow> form s' = form s"
proof (induction es arbitrary: s)
  case Nil
  then show ?case by simp
next
  case (Cons e es)
  from Cons.prems(1) obtain m where st: "step e s = Some m" and rest: "run es m = Some s'"
    by (auto split: option.splits)
  from Cons.prems(2) have e: "\<not> writesForm e" and es: "list_all (\<lambda>e. \<not> writesForm e) es"
    by simp_all
  from Cons.IH [OF rest es] step_keeps_form [OF st e] show ?case
    by simp
qed

lemma failure_does_not_write:
  "out \<noteq> Resolved 200 \<Longrightarrow> out \<noteq> Resolved 201 \<Longrightarrow> \<not> writesForm (Settle k out)"
  by (cases out) auto

lemma settle_success_form:
  assumes "step (Settle k out) s = Some s'" and "out = Resolved 200 \<or> out = Resolved 201"
  shows "form s' = [(''name'', ''''), (''DOB'', ''''), (''phoneNumber'', ''''), (''password'', ''''),
           (''role'', '''')]"
  using assms by (auto split: if_splits)

subsection \<open>Claims about the customer list\<close>

text \<open>
  C1. For every non-empty customer list, a confirmed delete with a target id removes exactly
  the records carrying that id and leaves every other record unchanged and in order: the
  result keeps exactly the positions whose record has another id. When the ids are pairwise
  distinct and the target sits at position \<open>i\<close>, the result is the list without position
  \<open>i\<close>; when no record has the target id, nothing is removed.
\<close>

theorem handleDelete_removes_exactly_target:
  assumes "customers \<noteq> []"
  shows "handleDelete True t customers
           = nths customers {i. i < length customers \<and> id' (customers ! i) \<noteq> t}
         \<and> (distinct (map id' customers) \<longrightarrow>
              (\<forall>i < length customers. id' (customers ! i) = t \<longrightarrow>
                 handleDelete True t customers = take i customers @ drop (Suc i) customers))
         \<and> (t \<notin> id' ` set customers \<longrightarrow> handleDelete True t customers = customers)"
proof (intro conjI impI allI)
  show "handleDelete True t customers
          = nths customers {i. i < length customers \<and> id' (customers ! i) \<noteq> t}"
    by (simp add: handleDelete_def filter_eq_nths)
next
  fix i
  assume "distinct (map id' customers)" "i < length customers" "id' (customers ! i) = t"
  then show "handleDelete True t customers = take i customers @ drop (Suc i) customers"
    by (simp add: handleDelete_def filter_drops_unique_position)
next
  assume "t \<notin> id' ` set customers"
  then show "handleDelete True t customers = customers"
    by (simp add: handleDelete_def filter_keeps_when_absent)
qed

theorem handleDelete_removes_exactly_target_witness:
  "initialCustomers \<noteq> []
   \<and> handleDelete True 1 initialCustomers = take 0 initialCustomers @ drop (Suc 0) initialCustomers
   \<and> handleDelete True 1 initialCustomers
       = [\<lparr>id' = 2, name = ''Jane Smith'', DOB = ''1995-08-20'', phoneNumber = ''9876543210'',
           password = ''secure456'', role = ''Admin''\<rparr>]"
proof -
  have ne: "initialCustomers \<noteq> []"
    by (simp add: initialCustomers_def)
  have d: "distinct (map id' initialCustomers)"
    by (simp add: initialCustomers_def)
  have at: "0 < length initialCustomers \<and> id' (initialCustomers ! 0) = 1"
    by (simp add: initialCustomers_def)
  from handleDelete_removes_exactly_target [OF ne, of 1] d at
  have "handleDelete True 1 initialCustomers
          = take 0 initialCustomers @ drop (Suc 0) initialCustomers"
    by blast
  with ne show ?thesis
    by (simp add: initialCustomers_def)
qed

text \<open>
  C2. For every customer list and target id, an edit with a non-empty supplied name keeps
  the length of the list, replaces the \<open>name\<close> field of every record whose id is the target
  and leaves that record's other fields as they were, and leaves every record with another
  id unchanged. With the empty string, or with a cancelled prompt, the list stays as it is.
\<close>

theorem handleEdit_changes_only_target_name:
  "(n \<noteq> [] \<longrightarrow>
      length (handleEdit (Some n) t customers) = length customers
      \<and> (\<forall>i < length customers.
            (id' (customers ! i) = t \<longrightarrow>
               handleEdit (Some n) t customers ! i = (customers ! i)\<lparr>name := n\<rparr>
               \<and> name (handleEdit (Some n) t customers ! i) = n
               \<and> id' (handleEdit (Some n) t customers ! i) = id' (customers ! i)
               \<and> DOB (handleEdit (Some n) t customers ! i) = DOB (customers ! i)
               \<and> phoneNumber (handleEdit (Some n) t customers ! i) = phoneNumber (customers ! i)
               \<and> password (handleEdit (Some n) t customers ! i) = password (customers ! i)
               \<and> role (handleEdit (Some n) t customers ! i) = role (customers ! i))
            \<and> (id' (customers ! i) \<noteq> t \<longrightarrow>
                 handleEdit (Some n) t customers ! i = customers ! i)))
   \<and> handleEdit (Some []) t customers = customers
   \<and> handleEdit None t customers = customers"
  by (simp add: handleEdit_def)

theorem handleEdit_changes_only_target_name_witness:
  "''X'' \<noteq> []
   \<and> (1::nat) < length initialCustomers \<and> id' (initialCustomers ! 1) = 2
   \<and> (0::nat) < length initialCustomers \<and> id' (initialCustomers ! 0) \<noteq> 2
   \<and> length (handleEdit (Some ''X'') 2 initialCustomers) = 2
   \<and> handleEdit (Some ''X'') 2 initialCustomers ! 1
        = \<lparr>id' = 2, name = ''X'', DOB = ''1995-08-20'', phoneNumber = ''9876543210'',
            password = ''secure456'', role = ''Admin''\<rparr>
   \<and> handleEdit (Some ''X'') 2 initialCustomers ! 0 = initialCustomers ! 0"
  using handleEdit_changes_only_target_name [of "''X''" 2 initialCustomers]
  by (simp add: initialCustomers_def)

text \<open>
  C6. With no customers the table body is exactly one placeholder row, spanning all columns
  of the header, and no data row. With \<open>n > 0\<close> customers it is exactly the \<open>n\<close> data rows,
  one per customer and in order, and no placeholder row.
\<close>

theorem tbody_placeholder_or_rows:
  "(customers = [] \<longrightarrow>
      tbody customers = [PlaceholderRow (length thead) ''No customers found''])
   \<and> (customers \<noteq> [] \<longrightarrow>
        tbody customers = map customerRow customers
        \<and> length (filter isCustomerRow (tbody customers)) = length customers
        \<and> filter isPlaceholderRow (tbody customers) = [])
   \<and> length (filter isCustomerRow (tbody customers)) = length customers
   \<and> length (filter isPlaceholderRow (tbody customers)) = (if customers = [] then 1 else 0)"
proof -
  have rows: "filter isCustomerRow (map customerRow cs) = map customerRow cs" for cs
    by (induction cs) (simp_all add: customerRow_def)
  have none: "filter isPlaceholderRow (map customerRow cs) = []" for cs
    by (induction cs) (simp_all add: customerRow_def)
  show ?thesis
    by (simp add: tbody_def thead_def rows none)
qed

theorem tbody_placeholder_or_rows_witness:
  "tbody [] = [PlaceholderRow 6 ''No customers found'']
   \<and> initialCustomers \<noteq> []
   \<and> length (filter isCustomerRow (tbody initialCustomers)) = 2
   \<and> filter isPlaceholderRow (tbody initialCustomers) = []"
  using tbody_placeholder_or_rows [of "[]"] tbody_placeholder_or_rows [of initialCustomers]
  by (simp add: initialCustomers_def thead_def tbody_def customerRow_def)

text \<open>
  C9. When the ids of a customer list are pairwise distinct, they are pairwise distinct after
  a delete and after an edit, whatever the dialogs answer. Neither operation changes an id:
  an edit leaves the list of ids as it is, position by position; a delete returns records
  of the old list only, and its ids are the old ids without the target.
\<close>

theorem list_operations_preserve_distinct_ids:
  assumes "distinct (map id' customers)"
  shows "distinct (map id' (handleDelete confirmed t customers))
         \<and> distinct (map id' (handleEdit newName t customers))
         \<and> map id' (handleEdit newName t customers) = map id' customers
         \<and> map id' (handleDelete confirmed t customers)
             = (if confirmed then filter (\<lambda>i. i \<noteq> t) (map id' customers) else map id' customers)
         \<and> set (handleDelete confirmed t customers) \<subseteq> set customers"
proof -
  have e: "map id' (handleEdit newName t customers) = map id' customers"
    by (simp add: handleEdit_def map_ids_edit)
  have d: "map id' (handleDelete confirmed t customers)
             = (if confirmed then filter (\<lambda>i. i \<noteq> t) (map id' customers) else map id' customers)"
    by (simp add: handleDelete_def filter_map comp_def)
  have s: "set (handleDelete confirmed t customers) \<subseteq> set customers"
    by (auto simp: handleDelete_def)
  from assms e d s show ?thesis
    by (simp add: distinct_map_filter)
qed

theorem list_operations_preserve_distinct_ids_witness:
  "distinct (map id' initialCustomers)
   \<and> distinct (map id' (handleDelete True 1 initialCustomers))
   \<and> distinct (map id' (handleEdit (Some ''X'') 1 initialCustomers))
   \<and> map id' (handleEdit (Some ''X'') 1 initialCustomers) = [1, 2]
   \<and> map id' (handleDelete True 1 initialCustomers) = [2]"
proof -
  have d: "distinct (map id' initialCustomers)"
    by (simp add: initialCustomers_def)
  from list_operations_preserve_distinct_ids [OF d, of True 1 "Some ''X''"] d
  show ?thesis
    by (simp add: initialCustomers_def)
qed

text \<open>
  C10. When the confirmation dialog of the delete action is declined, the customer list after
  the action is the list before it, for every list and every target id.
\<close>

theorem handleDelete_declined_keeps_list:
  "handleDelete False t customers = customers"
  by (simp add: handleDelete_def)

theorem handleDelete_declined_keeps_list_witness:
  "handleDelete False 1 initialCustomers = initialCustomers"
  using handleDelete_declined_keeps_list [of 1 initialCustomers] by simp

subsection \<open>Claims about the create-user form\<close>

text \<open>
  C3. In every state the form can reach, one run of the submit handler issues exactly one
  request: a POST to the fixed endpoint \<^verbatim>\<open>/api/auth/create\<close> on the fixed host, whose body
  is the form state at submit time. The keys of that state are exactly \<^verbatim>\<open>name\<close>, \<^verbatim>\<open>DOB\<close>,
  \<^verbatim>\<open>phoneNumber\<close>, \<^verbatim>\<open>password\<close> and \<^verbatim>\<open>role\<close>.
\<close>

theorem handleSubmit_posts_form_once:
  assumes "reachable s"
  shows "fst (handleSubmit (form s) out)
           = [\<lparr>req_method = POST, req_url = ''http://localhost:5000'' @ ''/api/auth/create'',
               req_body = form s\<rparr>]
         \<and> map fst (form s) = [''name'', ''DOB'', ''phoneNumber'', ''password'', ''role'']"
  using reachable_keys [OF assms]
  by (simp add: handleSubmit_def handleSubmit_request_def axios_post_def inputs_def)

theorem handleSubmit_posts_form_once_witness:
  "reachable \<lparr>form = [(''name'', ''Ann''), (''DOB'', ''''), (''phoneNumber'', ''0123''),
                       (''password'', ''pw''), (''role'', '''')],
              pending = [], alerts = [], console = []\<rparr>
   \<and> fst (handleSubmit [(''name'', ''Ann''), (''DOB'', ''''), (''phoneNumber'', ''0123''),
                          (''password'', ''pw''), (''role'', '''')] (Resolved 201))
       = [\<lparr>req_method = POST, req_url = ''http://localhost:5000/api/auth/create'',
           req_body = [(''name'', ''Ann''), (''DOB'', ''''), (''phoneNumber'', ''0123''),
                       (''password'', ''pw''), (''role'', '''')]\<rparr>]"
proof -
  have r: "reachable \<lparr>form = [(''name'', ''Ann''), (''DOB'', ''''), (''phoneNumber'', ''0123''),
                       (''password'', ''pw''), (''role'', '''')],
              pending = [], alerts = [], console = []\<rparr>"
    by (rule run_reachable [OF reachable_init run_filled])
  from handleSubmit_posts_form_once [OF r, of "Resolved 201"] r show ?thesis
    by simp
qed

text \<open>
  C4, as amended. When a request settles with status 200 or 201, every field of the form
  is the empty string afterwards, whatever the form held. When it settles otherwise (the
  promise is rejected, or resolves with another status), the handler does not write the
  form: its state after the settlement is its state just before it. So the form then holds
  its submit-time values whenever nothing wrote it while the request was pending, that is,
  when between the submit and the settling there was no change event and no successful
  settling of another request.
\<close>

theorem settle_writes_form_on_success_only:
  "(step (Settle k out) s = Some s' \<and> (out = Resolved 200 \<or> out = Resolved 201) \<longrightarrow>
      form s' = [(''name'', ''''), (''DOB'', ''''), (''phoneNumber'', ''''), (''password'', ''''),
                 (''role'', '''')])
   \<and> (step (Settle k out) s = Some s' \<and> out \<noteq> Resolved 200 \<and> out \<noteq> Resolved 201 \<longrightarrow>
        form s' = form s)
   \<and> (run (Submit # es @ [Settle j out]) s = Some t \<and> list_all (\<lambda>e. \<not> writesForm e) es
        \<and> out \<noteq> Resolved 200 \<and> out \<noteq> Resolved 201 \<longrightarrow>
        form t = form s)"
proof (intro conjI impI)
  assume "step (Settle k out) s = Some s' \<and> (out = Resolved 200 \<or> out = Resolved 201)"
  then show "form s' = [(''name'', ''''), (''DOB'', ''''), (''phoneNumber'', ''''),
                        (''password'', ''''), (''role'', '''')]"
    using settle_success_form by blast
next
  assume "step (Settle k out) s = Some s' \<and> out \<noteq> Resolved 200 \<and> out \<noteq> Resolved 201"
  then show "form s' = form s"
    using step_keeps_form failure_does_not_write by blast
next
  assume a: "run (Submit # es @ [Settle j out]) s = Some t
             \<and> list_all (\<lambda>e. \<not> writesForm e) es
             \<and> out \<noteq> Resolved 200 \<and> out \<noteq> Resolved 201"
  then have "list_all (\<lambda>e. \<not> writesForm e) (Submit # es @ [Settle j out])"
    by (simp add: failure_does_not_write)
  with a show "form t = form s"
    using run_keeps_form by blast
qed

theorem settle_writes_form_on_success_only_witness:
  "step (Settle 0 (Resolved 201))
     \<lparr>form = [(''name'', ''Bob''), (''DOB'', ''''), (''phoneNumber'', ''0123''),
               (''password'', ''pw''), (''role'', '''')],
      pending = [handleSubmit_request [(''name'', ''Ann''), (''DOB'', ''''),
                   (''phoneNumber'', ''0123''), (''password'', ''pw''), (''role'', '''')]],
      alerts = [], console = []\<rparr>
     = Some \<lparr>form = [(''name'', ''''), (''DOB'', ''''), (''phoneNumber'', ''''),
                      (''password'', ''''), (''role'', '''')],
             pending = [], alerts = [''User created successfully!''], console = []\<rparr>
   \<and> step (Settle 0 (Resolved 204))
       \<lparr>form = [(''name'', ''Bob''), (''DOB'', ''''), (''phoneNumber'', ''0123''),
                 (''password'', ''pw''), (''role'', '''')],
        pending = [handleSubmit_request [(''name'', ''Ann''), (''DOB'', ''''),
                     (''phoneNumber'', ''0123''), (''password'', ''pw''), (''role'', '''')]],
        alerts = [], console = []\<rparr>
       = Some \<lparr>form = [(''name'', ''Bob''), (''DOB'', ''''), (''phoneNumber'', ''0123''),
                        (''password'', ''pw''), (''role'', '''')],
               pending = [], alerts = [''Error creating user.''], console = []\<rparr>
   \<and> map_option form
       (run (Submit # [Submit] @ [Settle 0 (Rejected \<lparr>response = None\<rparr>)])
          \<lparr>form = [(''name'', ''Ann''), (''DOB'', ''''), (''phoneNumber'', ''0123''),
                    (''password'', ''pw''), (''role'', '''')],
           pending = [], alerts = [], console = []\<rparr>)
       = Some [(''name'', ''Ann''), (''DOB'', ''''), (''phoneNumber'', ''0123''),
               (''password'', ''pw''), (''role'', '''')]"
proof -
  let ?ann = "[(''name'', ''Ann''), (''DOB'', ''''), (''phoneNumber'', ''0123''),
               (''password'', ''pw''), (''role'', '''')]"
  let ?bob = "[(''name'', ''Bob''), (''DOB'', ''''), (''phoneNumber'', ''0123''),
               (''password'', ''pw''), (''role'', '''')]"
  let ?s = "\<lparr>form = ?bob, pending = [handleSubmit_request ?ann], alerts = [],
             console = []\<rparr>"
  let ?filled = "\<lparr>form = ?ann, pending = [], alerts = [], console = ([] :: axios_error list)\<rparr>"
  let ?ok = "\<lparr>form = [(''name'', ''''), (''DOB'', ''''), (''phoneNumber'', ''''),
                      (''password'', ''''), (''role'', '''')],
             pending = [], alerts = [''User created successfully!''],
             console = ([] :: axios_error list)\<rparr>"
  let ?ko = "\<lparr>form = ?bob, pending = [], alerts = [''Error creating user.''],
             console = ([] :: axios_error list)\<rparr>"
  let ?t = "\<lparr>form = ?ann, pending = [handleSubmit_request ?ann], alerts = [''Something went wrong.''],
             console = [\<lparr>response = None\<rparr>]\<rparr>"
  have a: "step (Settle 0 (Resolved 201)) ?s = Some ?ok"
    by simp
  have b: "step (Settle 0 (Resolved 204)) ?s = Some ?ko"
    by simp
  have c: "run (Submit # [Submit] @ [Settle 0 (Rejected \<lparr>response = None\<rparr>)]) ?filled = Some ?t"
    by (simp add: required_filled_def field_value_def inputs_def error_message_def or_else_def)
  have d: "list_all (\<lambda>e. \<not> writesForm e) [Submit]"
    by simp
  from settle_writes_form_on_success_only
         [where k = 0 and out = "Resolved 201" and s = ?s and s' = ?ok]
       settle_writes_form_on_success_only
         [where k = 0 and out = "Resolved 204" and s = ?s and s' = ?ko]
       settle_writes_form_on_success_only
         [where out = "Rejected \<lparr>response = None\<rparr>" and es = "[Submit]" and j = 0
            and s = ?filled and t = ?t]
       a b c d
  show ?thesis
    by simp
qed

text \<open>
  C4 as stated fails across the \<^verbatim>\<open>await\<close>: the form is submitted with the name Ann, the
  name is changed to Bob while the request is pending, and the request is then rejected
  with status 400. The form after the failed submission holds Bob, not the submit-time Ann.
\<close>

theorem typed_while_pending_survives_failure:
  "map_option form
     (run [Change ''name'' ''Ann'', Change ''phoneNumber'' ''0123'', Change ''password'' ''pw'']
        initialState)
     = Some [(''name'', ''Ann''), (''DOB'', ''''), (''phoneNumber'', ''0123''),
             (''password'', ''pw''), (''role'', '''')]
   \<and> map_option form
       (run [Change ''name'' ''Ann'', Change ''phoneNumber'' ''0123'', Change ''password'' ''pw'',
             Submit, Change ''name'' ''Bob'',
             Settle 0 (Rejected \<lparr>response = Some \<lparr>status = 400, data = None\<rparr>\<rparr>)]
          initialState)
       = Some [(''name'', ''Bob''), (''DOB'', ''''), (''phoneNumber'', ''0123''),
               (''password'', ''pw''), (''role'', '''')]
   \<and> [(''name'', ''Bob''), (''DOB'', ''''), (''phoneNumber'', ''0123''),
       (''password'', ''pw''), (''role'', '''')]
       \<noteq> [(''name'', ''Ann''), (''DOB'', ''''), (''phoneNumber'', ''0123''),
          (''password'', ''pw''), (''role'', '''')]"
  by (simp add: initialState_def initialFormData_def inputs_def handleChange_def
        required_filled_def field_value_def handleSubmit_request_def axios_post_def)

text \<open>
  C5, as amended. When the request is rejected, the one alert shown is the \<^verbatim>\<open>message\<close> field of
  the error response's body when that field is present and not the empty string, and the
  fixed text \<^verbatim>\<open>Something went wrong.\<close> otherwise (no response, no body, no message, or an
  empty message). A response that resolves with a status other than 200 and 201 shows the
  fixed text \<^verbatim>\<open>Error creating user.\<close>
\<close>

theorem rejected_alert_message_or_fallback:
  "(error_message err = Some m \<and> m \<noteq> [] \<longrightarrow>
      alerted (snd (handleSubmit fd (Rejected err))) = [m])
   \<and> (error_message err = None \<or> error_message err = Some [] \<longrightarrow>
        alerted (snd (handleSubmit fd (Rejected err))) = [''Something went wrong.''])
   \<and> (st \<noteq> 200 \<and> st \<noteq> 201 \<longrightarrow>
        alerted (snd (handleSubmit fd (Resolved st))) = [''Error creating user.''])"
  by (auto simp: handleSubmit_def or_else_def)

theorem rejected_alert_message_or_fallback_witness:
  "error_message \<lparr>response = Some \<lparr>status = 400, data = Some \<lparr>message = Some ''Phone number already used''\<rparr>\<rparr>\<rparr>
     = Some ''Phone number already used''
   \<and> ''Phone number already used'' \<noteq> []
   \<and> alerted (snd (handleSubmit initialFormData
         (Rejected \<lparr>response = Some \<lparr>status = 400,
                      data = Some \<lparr>message = Some ''Phone number already used''\<rparr>\<rparr>\<rparr>)))
       = [''Phone number already used'']
   \<and> error_message \<lparr>response = None\<rparr> = None
   \<and> alerted (snd (handleSubmit initialFormData (Rejected \<lparr>response = None\<rparr>)))
       = [''Something went wrong.'']
   \<and> alerted (snd (handleSubmit initialFormData (Resolved 204))) = [''Error creating user.'']"
proof -
  have m: "error_message \<lparr>response = Some \<lparr>status = 400, data = Some \<lparr>message = Some ''Phone number already used''\<rparr>\<rparr>\<rparr>
     = Some ''Phone number already used''"
    by (simp add: error_message_def)
  have n: "error_message \<lparr>response = None\<rparr> = None"
    by (simp add: error_message_def)
  from rejected_alert_message_or_fallback
         [of "\<lparr>response = Some \<lparr>status = 400, data = Some \<lparr>message = Some ''Phone number already used''\<rparr>\<rparr>\<rparr>"
             "''Phone number already used''" initialFormData 204]
       rejected_alert_message_or_fallback
         [of "\<lparr>response = None\<rparr>" "''x''" initialFormData 204]
       m n
  show ?thesis by simp
qed

text \<open>
  C5 as stated fails: an error response with status 400 whose body carries the empty string
  as its message has the field present, and the alert shows the fallback text, not the
  message.
\<close>

theorem empty_message_shows_fallback:
  "error_message \<lparr>response = Some \<lparr>status = 400, data = Some \<lparr>message = Some ''''\<rparr>\<rparr>\<rparr> = Some ''''
   \<and> alerted (snd (handleSubmit initialFormData
         (Rejected \<lparr>response = Some \<lparr>status = 400, data = Some \<lparr>message = Some ''''\<rparr>\<rparr>\<rparr>)))
       = [''Something went wrong.'']
   \<and> alerted (snd (handleSubmit initialFormData
         (Rejected \<lparr>response = Some \<lparr>status = 400, data = Some \<lparr>message = Some ''''\<rparr>\<rparr>\<rparr>)))
       \<noteq> ['''']"
  by (simp add: handleSubmit_def error_message_def or_else_def)

text \<open>
  C7, as amended. Every submit event the browser fires issues exactly one more request,
  whether or not earlier requests are still in flight: after any run of events, the number
  of pending requests plus the number of settled ones is the number pending at the start
  plus the number of submit events, and a further submit appends one request to the pending
  ones.
\<close>

theorem every_submit_adds_one_pending_request:
  assumes "run es s = Some s'"
  shows "length (pending s') + length (filter isSettle es)
           = length (pending s) + length (filter isSubmit es)
         \<and> (required_filled (form s') \<longrightarrow>
              map_option pending (step Submit s')
                = Some (pending s' @ [handleSubmit_request (form s')]))"
proof
  from assms
  show "length (pending s') + length (filter isSettle es)
          = length (pending s) + length (filter isSubmit es)"
  proof (induction es arbitrary: s)
    case Nil
    then show ?case by simp
  next
    case (Cons e es)
    then obtain m where st: "step e s = Some m" and rest: "run es m = Some s'"
      by (auto split: option.splits)
    from step_pending_count [OF st] Cons.IH [OF rest] show ?case
      by (simp split: if_splits)
  qed
next
  show "required_filled (form s') \<longrightarrow>
          map_option pending (step Submit s')
            = Some (pending s' @ [handleSubmit_request (form s')])"
    by simp
qed

theorem every_submit_adds_one_pending_request_witness:
  "run [Change ''name'' ''Ann'', Change ''phoneNumber'' ''0123'', Change ''password'' ''pw'',
        Submit] initialState
     = Some \<lparr>form = [(''name'', ''Ann''), (''DOB'', ''''), (''phoneNumber'', ''0123''),
                      (''password'', ''pw''), (''role'', '''')],
             pending = [\<lparr>req_method = POST, req_url = ''http://localhost:5000/api/auth/create'',
                          req_body = [(''name'', ''Ann''), (''DOB'', ''''), (''phoneNumber'', ''0123''),
                                      (''password'', ''pw''), (''role'', '''')]\<rparr>],
             alerts = [], console = []\<rparr>
   \<and> required_filled [(''name'', ''Ann''), (''DOB'', ''''), (''phoneNumber'', ''0123''),
                      (''password'', ''pw''), (''role'', '''')]
   \<and> map_option (length \<circ> pending)
        (step Submit
           \<lparr>form = [(''name'', ''Ann''), (''DOB'', ''''), (''phoneNumber'', ''0123''),
                      (''password'', ''pw''), (''role'', '''')],
             pending = [\<lparr>req_method = POST, req_url = ''http://localhost:5000/api/auth/create'',
                          req_body = [(''name'', ''Ann''), (''DOB'', ''''), (''phoneNumber'', ''0123''),
                                      (''password'', ''pw''), (''role'', '''')]\<rparr>],
             alerts = [], console = []\<rparr>)
       = Some 2"
proof -
  have r: "run [Change ''name'' ''Ann'', Change ''phoneNumber'' ''0123'', Change ''password'' ''pw'',
        Submit] initialState
     = Some \<lparr>form = [(''name'', ''Ann''), (''DOB'', ''''), (''phoneNumber'', ''0123''),
                      (''password'', ''pw''), (''role'', '''')],
             pending = [\<lparr>req_method = POST, req_url = ''http://localhost:5000/api/auth/create'',
                          req_body = [(''name'', ''Ann''), (''DOB'', ''''), (''phoneNumber'', ''0123''),
                                      (''password'', ''pw''), (''role'', '''')]\<rparr>],
             alerts = [], console = []\<rparr>"
    by (simp add: initialState_def initialFormData_def inputs_def handleChange_def
          required_filled_def field_value_def handleSubmit_request_def axios_post_def)
  have f: "required_filled [(''name'', ''Ann''), (''DOB'', ''''), (''phoneNumber'', ''0123''),
                      (''password'', ''pw''), (''role'', '''')]"
    by (simp add: required_filled_def field_value_def inputs_def)
  from every_submit_adds_one_pending_request [OF r] f
  have "map_option pending
        (step Submit
           \<lparr>form = [(''name'', ''Ann''), (''DOB'', ''''), (''phoneNumber'', ''0123''),
                      (''password'', ''pw''), (''role'', '''')],
             pending = [\<lparr>req_method = POST, req_url = ''http://localhost:5000/api/auth/create'',
                          req_body = [(''name'', ''Ann''), (''DOB'', ''''), (''phoneNumber'', ''0123''),
                                      (''password'', ''pw''), (''role'', '''')]\<rparr>],
             alerts = [], console = []\<rparr>)
      = Some ([\<lparr>req_method = POST, req_url = ''http://localhost:5000/api/auth/create'',
                          req_body = [(''name'', ''Ann''), (''DOB'', ''''), (''phoneNumber'', ''0123''),
                                      (''password'', ''pw''), (''role'', '''')]\<rparr>]
              @ [handleSubmit_request [(''name'', ''Ann''), (''DOB'', ''''), (''phoneNumber'', ''0123''),
                      (''password'', ''pw''), (''role'', '''')]])"
    by simp
  then have "map_option (length \<circ> pending)
        (step Submit
           \<lparr>form = [(''name'', ''Ann''), (''DOB'', ''''), (''phoneNumber'', ''0123''),
                      (''password'', ''pw''), (''role'', '''')],
             pending = [\<lparr>req_method = POST, req_url = ''http://localhost:5000/api/auth/create'',
                          req_body = [(''name'', ''Ann''), (''DOB'', ''''), (''phoneNumber'', ''0123''),
                                      (''password'', ''pw''), (''role'', '''')]\<rparr>],
             alerts = [], console = []\<rparr>)
       = Some 2"
    by (simp add: f)
  with r f show ?thesis by blast
qed

text \<open>
  C7 as stated fails: after the three required fields are filled in, two submit events in a
  row leave two requests pending.
\<close>

theorem two_submits_two_pending:
  "map_option pending
     (run [Change ''name'' ''Ann'', Change ''phoneNumber'' ''0123'', Change ''password'' ''pw'',
           Submit, Submit] initialState)
   = Some [\<lparr>req_method = POST, req_url = ''http://localhost:5000/api/auth/create'',
             req_body = [(''name'', ''Ann''), (''DOB'', ''''), (''phoneNumber'', ''0123''),
                         (''password'', ''pw''), (''role'', '''')]\<rparr>,
           \<lparr>req_method = POST, req_url = ''http://localhost:5000/api/auth/create'',
             req_body = [(''name'', ''Ann''), (''DOB'', ''''), (''phoneNumber'', ''0123''),
                         (''password'', ''pw''), (''role'', '''')]\<rparr>]"
  by (simp add: initialState_def initialFormData_def inputs_def handleChange_def
        required_filled_def field_value_def handleSubmit_request_def axios_post_def)

text \<open>
  C8. The form has exactly five inputs, named \<^verbatim>\<open>name\<close>, \<^verbatim>\<open>DOB\<close>, \<^verbatim>\<open>phoneNumber\<close>,
  \<^verbatim>\<open>password\<close> and \<^verbatim>\<open>role\<close>, which are the keys of the form state. Exactly \<^verbatim>\<open>name\<close>,
  \<^verbatim>\<open>phoneNumber\<close> and \<^verbatim>\<open>password\<close> are marked required; \<^verbatim>\<open>DOB\<close> and \<^verbatim>\<open>role\<close> are not.
\<close>

theorem form_collects_five_fields_three_required:
  "map input_name inputs = [''name'', ''DOB'', ''phoneNumber'', ''password'', ''role'']
   \<and> map fst initialFormData = map input_name inputs
   \<and> length inputs = 5
   \<and> map input_name (filter required inputs) = [''name'', ''phoneNumber'', ''password'']
   \<and> map input_name (filter (\<lambda>i. \<not> required i) inputs) = [''DOB'', ''role'']"
  by (simp add: inputs_def initialFormData_def)

end
